theory Spec2Isabelle
  imports Complex_Main "HOL-Library.Word" "HOL-Library.Log_Nat"
begin

unbundle bit_operations_syntax

section \<open>Audio Uplink Codec: \<open>createBlob\<close> (hooks/useGeminiInterviewer)\<close>

text \<open>
  A finite JavaScript number is a real (indeed a dyadic rational). A sample read
  from the \<open>Float32Array\<close> is widened to a double without loss, and the product
  with 32768 (a power of two) is exact for every finite 32-bit float, so
  \<open>data[i] * 32768\<close> is the exact product. NaN and the infinities are outside
  this model (the typed-array store turns them into 0).
\<close>

type_synonym number = real

text \<open>
  Storing a number into an \<open>Int16Array\<close> element applies ECMAScript's ToInt16:
  the number is truncated towards zero and the integer is reduced modulo \<open>2 ^ 16\<close>;
  the element holds the 16-bit two's complement pattern.
\<close>

definition js_trunc :: "number \<Rightarrow> int" where
  "js_trunc x = (if x < 0 then \<lceil>x\<rceil> else \<lfloor>x\<rfloor>)"

definition ToInt16 :: "number \<Rightarrow> 16 word" where
  "ToInt16 x = word_of_int (js_trunc x)"

text \<open>The first loop of \<open>createBlob\<close>: \<open>int16[i] = data[i] * 32768\<close>.\<close>

primrec quantize :: "number list \<Rightarrow> 16 word list" where
  "quantize [] = []"
| "quantize (s # rest) = ToInt16 (s * 32768) # quantize rest"

text \<open>
  \<open>new Uint8Array(int16.buffer)\<close> views the same memory as bytes; on the
  little-endian platforms browsers run on, each element contributes its low byte
  and then its high byte.
\<close>

definition le_bytes :: "16 word \<Rightarrow> 8 word list" where
  "le_bytes w = [ucast w, ucast (drop_bit 8 w)]"

primrec buffer_bytes :: "16 word list \<Rightarrow> 8 word list" where
  "buffer_bytes [] = []"
| "buffer_bytes (w # ws) = le_bytes w @ buffer_bytes ws"

text \<open>
  The second loop builds \<open>binary\<close>, the string whose \<open>i\<close>-th character has the
  code \<open>bytes[i]\<close>; it is represented by the list of these codes. \<open>btoa\<close> is the
  platform's base64 encoder (RFC 4648, with padding) of such a string.
\<close>

definition b64_alphabet :: string where
  "b64_alphabet = ''ABCDEFGHIJKLMNOPQRSTUVWXYZabcdefghijklmnopqrstuvwxyz0123456789+/''"

definition b64_char :: "nat \<Rightarrow> char" where
  "b64_char n = b64_alphabet ! (n mod 64)"

fun btoa :: "8 word list \<Rightarrow> string" where
  "btoa (a # b # c # rest) =
     [b64_char (unat a div 4),
      b64_char (unat a mod 4 * 16 + unat b div 16),
      b64_char (unat b mod 16 * 4 + unat c div 64),
      b64_char (unat c mod 64)] @ btoa rest"
| "btoa [a, b] =
     [b64_char (unat a div 4),
      b64_char (unat a mod 4 * 16 + unat b div 16),
      b64_char (unat b mod 16 * 4),
      CHR ''='']"
| "btoa [a] =
     [b64_char (unat a div 4),
      b64_char (unat a mod 4 * 16),
      CHR ''='', CHR ''='']"
| "btoa [] = []"

record packet =
  data :: string
  mimeType :: string

definition createBlob :: "number list \<Rightarrow> packet" where
  "createBlob samples =
     (let int16 = quantize samples;
          bytes = buffer_bytes int16;
          binary = bytes
      in \<lparr>data = btoa binary, mimeType = ''audio/pcm;rate=16000''\<rparr>)"

subsection \<open>The receiving side: base64 and little-endian 16-bit decoding\<close>

fun index_of :: "'a \<Rightarrow> 'a list \<Rightarrow> nat" where
  "index_of x [] = 0"
| "index_of x (y # ys) = (if x = y then 0 else Suc (index_of x ys))"

definition b64_index :: "char \<Rightarrow> nat" where
  "b64_index c = index_of c b64_alphabet"

fun b64_decode :: "string \<Rightarrow> 8 word list" where
  "b64_decode (c1 # c2 # c3 # c4 # rest) =
     (if c3 = CHR ''='' then
        [word_of_nat (b64_index c1 * 4 + b64_index c2 div 16)]
      else if c4 = CHR ''='' then
        [word_of_nat (b64_index c1 * 4 + b64_index c2 div 16),
         word_of_nat (b64_index c2 mod 16 * 16 + b64_index c3 div 4)]
      else
        [word_of_nat (b64_index c1 * 4 + b64_index c2 div 16),
         word_of_nat (b64_index c2 mod 16 * 16 + b64_index c3 div 4),
         word_of_nat (b64_index c3 mod 4 * 64 + b64_index c4)] @ b64_decode rest)"
| "b64_decode _ = []"

fun int16_of_bytes :: "8 word list \<Rightarrow> 16 word list" where
  "int16_of_bytes (lo # hi # rest) = (push_bit 8 (ucast hi) OR ucast lo) # int16_of_bytes rest"
| "int16_of_bytes _ = []"

definition decode_pcm16 :: "string \<Rightarrow> int list" where
  "decode_pcm16 payload = map sint (int16_of_bytes (b64_decode payload))"

section \<open>Realtime Assistant Session: the \<open>useGeminiInterviewer\<close> hook\<close>

text \<open>
  The hook's state: the two React state cells, the four refs, and what it has
  done to the outside world (platform calls that completed, console lines).
  Platform objects are identified by handles.
\<close>

type_synonym handle = nat

datatype call = Then_close handle | Node_disconnect handle | Context_close handle

datatype outcome = Completed | Threw

record hook =
  currentQuestion :: string
  isConnected :: bool
  sessionRef :: "handle option"
  audioContextRef :: "handle option"
  scriptProcessorRef :: "handle option"
  sourceRef :: "handle option"
  calls :: "call list"
  console :: "string list"

definition initial_hook :: hook where
  "initial_hook = \<lparr>currentQuestion = [], isConnected = False, sessionRef = None,
     audioContextRef = None, scriptProcessorRef = None, sourceRef = None,
     calls = [], console = []\<rparr>"

subsection \<open>Incoming messages\<close>

record transcription =
  transcription_text :: "string option"

record server_content =
  outputTranscription :: "transcription option"
  turnComplete :: bool

record live_server_message =
  serverContent :: "server_content option"

text \<open>
  \<open>onmessage\<close>: a non-empty transcription text is appended to the prompt
  (\<open>setCurrentQuestion(prev => prev + text)\<close>); a turn-complete flag only writes a
  console line.
\<close>

definition append_transcription :: "live_server_message \<Rightarrow> hook \<Rightarrow> hook" where
  "append_transcription message h =
     (case serverContent message of
        None \<Rightarrow> h
      | Some sc \<Rightarrow>
          (case outputTranscription sc of
             None \<Rightarrow> h
           | Some t \<Rightarrow>
               (case transcription_text t of
                  None \<Rightarrow> h
                | Some txt \<Rightarrow>
                    if txt = [] then h
                    else h\<lparr>currentQuestion := currentQuestion h @ txt\<rparr>)))"

definition log_turn_complete :: "live_server_message \<Rightarrow> hook \<Rightarrow> hook" where
  "log_turn_complete message h =
     (case serverContent message of
        None \<Rightarrow> h
      | Some sc \<Rightarrow>
          if turnComplete sc then h\<lparr>console := console h @ [''Turn complete'']\<rparr> else h)"

definition onmessage :: "live_server_message \<Rightarrow> hook \<Rightarrow> hook" where
  "onmessage message h = log_turn_complete message (append_transcription message h)"

primrec onmessages :: "live_server_message list \<Rightarrow> hook \<Rightarrow> hook" where
  "onmessages [] h = h"
| "onmessages (m # ms) h = onmessages ms (onmessage m h)"

definition text_event :: "string \<Rightarrow> live_server_message" where
  "text_event fragment =
     \<lparr>serverContent = Some \<lparr>outputTranscription = Some \<lparr>transcription_text = Some fragment\<rparr>,
                              turnComplete = False\<rparr>\<rparr>"

text \<open>The text fragment a message carries, empty when it carries none.\<close>

definition fragment_of :: "live_server_message \<Rightarrow> string" where
  "fragment_of message =
     (case serverContent message of
        None \<Rightarrow> []
      | Some sc \<Rightarrow>
          (case outputTranscription sc of
             None \<Rightarrow> []
           | Some t \<Rightarrow> (case transcription_text t of None \<Rightarrow> [] | Some txt \<Rightarrow> txt)))"

definition turn_complete_event :: live_server_message where
  "turn_complete_event =
     \<lparr>serverContent = Some \<lparr>outputTranscription = None, turnComplete = True\<rparr>\<rparr>"

subsection \<open>Connection callbacks\<close>

text \<open>
  \<open>connectToGemini\<close> returns at once unless recording is active, an audio stream
  exists and an API key is configured. Inside its \<open>try\<close>, the audio context is
  created and stored, then the session promise; \<open>ctx\<close> and \<open>session\<close> are the
  handles the platform hands out, \<open>None\<close> when the constructor or the connect
  call throws (the \<open>catch\<close> writes a console line).
\<close>

definition connectToGemini ::
    "bool \<Rightarrow> bool \<Rightarrow> bool \<Rightarrow> handle option \<Rightarrow> handle option \<Rightarrow> hook \<Rightarrow> hook" where
  "connectToGemini isActive audioStream apiKey ctx session h =
     (if isActive \<and> audioStream \<and> apiKey then
        (case ctx of
           None \<Rightarrow> h\<lparr>console := console h @ [''Failed to initialize Gemini:'']\<rparr>
         | Some c \<Rightarrow>
             (case session of
                None \<Rightarrow> h\<lparr>audioContextRef := Some c,
                           console := console h @ [''Failed to initialize Gemini:'']\<rparr>
              | Some p \<Rightarrow> h\<lparr>audioContextRef := Some c, sessionRef := Some p\<rparr>))
      else h)"

definition onopen :: "bool \<Rightarrow> handle \<Rightarrow> handle \<Rightarrow> hook \<Rightarrow> hook" where
  "onopen mounted source processor h =
     h\<lparr>console := console h @ [''Gemini Connected''],
       isConnected := (if mounted then True else isConnected h),
       sourceRef := Some source,
       scriptProcessorRef := Some processor\<rparr>"

definition onclose :: "bool \<Rightarrow> hook \<Rightarrow> hook" where
  "onclose mounted h =
     h\<lparr>console := console h @ [''Gemini Disconnected''],
       isConnected := (if mounted then False else isConnected h)\<rparr>"

definition onerror :: "bool \<Rightarrow> hook \<Rightarrow> hook" where
  "onerror mounted h =
     h\<lparr>console := console h @ [''Gemini Error''],
       isConnected := (if mounted then False else isConnected h)\<rparr>"

subsection \<open>Teardown: \<open>cleanup\<close>\<close>

text \<open>
  \<open>cleanup\<close> is straight-line code without \<open>try\<close>: a platform call that throws
  ends it there, and the statements after it do not run. Which calls throw is the
  platform's choice, the parameter \<open>throws\<close>. A step returns whether it completed,
  and the state it left.
\<close>

type_synonym step = "hook \<Rightarrow> outcome \<times> hook"

definition and_then :: "step \<Rightarrow> step \<Rightarrow> step" where
  "and_then f g h = (case f h of (Completed, h') \<Rightarrow> g h' | (Threw, h') \<Rightarrow> (Threw, h'))"

definition assign :: "(hook \<Rightarrow> hook) \<Rightarrow> step" where
  "assign f h = (Completed, f h)"

definition invoke :: "(call \<Rightarrow> bool) \<Rightarrow> call \<Rightarrow> step" where
  "invoke throws c h = (if throws c then (Threw, h) else (Completed, h\<lparr>calls := calls h @ [c]\<rparr>))"

definition close_session :: "(call \<Rightarrow> bool) \<Rightarrow> step" where
  "close_session throws h =
     (case sessionRef h of
        None \<Rightarrow> (Completed, h)
      | Some p \<Rightarrow>
          and_then (invoke throws (Then_close p)) (assign (\<lambda>h. h\<lparr>sessionRef := None\<rparr>)) h)"

definition disconnect_processor :: "(call \<Rightarrow> bool) \<Rightarrow> step" where
  "disconnect_processor throws h =
     (case scriptProcessorRef h of
        None \<Rightarrow> (Completed, h)
      | Some n \<Rightarrow>
          and_then (invoke throws (Node_disconnect n))
            (assign (\<lambda>h. h\<lparr>scriptProcessorRef := None\<rparr>)) h)"

definition disconnect_source :: "(call \<Rightarrow> bool) \<Rightarrow> step" where
  "disconnect_source throws h =
     (case sourceRef h of
        None \<Rightarrow> (Completed, h)
      | Some n \<Rightarrow>
          and_then (invoke throws (Node_disconnect n)) (assign (\<lambda>h. h\<lparr>sourceRef := None\<rparr>)) h)"

definition close_context :: "(call \<Rightarrow> bool) \<Rightarrow> step" where
  "close_context throws h =
     (case audioContextRef h of
        None \<Rightarrow> (Completed, h)
      | Some c \<Rightarrow>
          and_then (invoke throws (Context_close c))
            (assign (\<lambda>h. h\<lparr>audioContextRef := None\<rparr>)) h)"

definition cleanup :: "(call \<Rightarrow> bool) \<Rightarrow> step" where
  "cleanup throws =
     and_then (assign (\<lambda>h. h\<lparr>isConnected := False\<rparr>))
    (and_then (assign (\<lambda>h. h\<lparr>currentQuestion := []\<rparr>))
    (and_then (close_session throws)
    (and_then (disconnect_processor throws)
    (and_then (disconnect_source throws)
              (close_context throws)))))"

text \<open>
  The browser's own behaviour: \<open>Promise.then\<close>, \<open>AudioNode.disconnect()\<close> without
  arguments and \<open>AudioContext.close()\<close> (which reports failure through the promise
  it returns) do not throw.
\<close>

definition no_throw :: "call \<Rightarrow> bool" where
  "no_throw c = False"

text \<open>A platform on which disconnecting one given node throws.\<close>

definition disconnect_throws :: "handle \<Rightarrow> call \<Rightarrow> bool" where
  "disconnect_throws n c = (c = Node_disconnect n)"

text \<open>The calls a teardown makes when nothing throws, for the handles present.\<close>

definition teardown_calls :: "hook \<Rightarrow> call list" where
  "teardown_calls h =
     (case sessionRef h of None \<Rightarrow> [] | Some p \<Rightarrow> [Then_close p]) @
     (case scriptProcessorRef h of None \<Rightarrow> [] | Some n \<Rightarrow> [Node_disconnect n]) @
     (case sourceRef h of None \<Rightarrow> [] | Some n \<Rightarrow> [Node_disconnect n]) @
     (case audioContextRef h of None \<Rightarrow> [] | Some c \<Rightarrow> [Context_close c])"

text \<open>The session as it stands after a connect, and after the remote handshake.\<close>

definition connecting_hook :: hook where
  "connecting_hook = connectToGemini True True True (Some 1) (Some 2) initial_hook"

definition connected_hook :: hook where
  "connected_hook = onopen True 3 4 connecting_hook"

text \<open>
  The hook hands out \<open>currentQuestion.trim()\<close>. A character here is a code below
  256; of these, \<open>trim\<close> removes the space, the tab, the line feed, the vertical
  tab, the form feed, the carriage return and the no-break space.
\<close>

definition is_space :: "char \<Rightarrow> bool" where
  "is_space c =
     (c \<in> set [CHR '' '', CHR 0x09, CHR 0x0A, CHR 0x0B, CHR 0x0C, CHR 0x0D, CHR 0xA0])"

definition trim :: "string \<Rightarrow> string" where
  "trim s = rev (dropWhile is_space (rev (dropWhile is_space s)))"

definition displayed_question :: "hook \<Rightarrow> string" where
  "displayed_question h = trim (currentQuestion h)"

section \<open>Frame Compositor: \<open>draw\<close> (components/Recorder)\<close>

datatype AspectRatio = PORTRAIT_9_16 | LANDSCAPE_16_9 | PORTRAIT_3_4 | SQUARE_1_1

record VideoConfig =
  width :: nat
  height :: nat

fun ASPECT_RATIO_CONFIGS :: "AspectRatio \<Rightarrow> VideoConfig" where
  "ASPECT_RATIO_CONFIGS PORTRAIT_9_16 = \<lparr>width = 405, height = 720\<rparr>"
| "ASPECT_RATIO_CONFIGS LANDSCAPE_16_9 = \<lparr>width = 720, height = 405\<rparr>"
| "ASPECT_RATIO_CONFIGS PORTRAIT_3_4 = \<lparr>width = 540, height = 720\<rparr>"
| "ASPECT_RATIO_CONFIGS SQUARE_1_1 = \<lparr>width = 600, height = 600\<rparr>"

subsection \<open>Arithmetic of JavaScript numbers\<close>

text \<open>
  Each arithmetic operation on doubles returns the exact result rounded to the
  nearest double, ties to the even significand. The crop computation takes this
  rounding as a parameter: with \<open>exact\<close> it is the geometry over the reals, with
  \<open>binary64\<close> it is what the machine computes, for results in the normal range
  (magnitude from \<open>2 ^ -1022\<close> up to the largest double; no overflow, no subnormals).
\<close>

definition exact :: "real \<Rightarrow> real" where
  "exact x = x"

definition round_half_even :: "real \<Rightarrow> int" where
  "round_half_even x =
     (let f = \<lfloor>x\<rfloor>; d = x - of_int f
      in if d < 1 / 2 then f
         else if 1 / 2 < d then f + 1
         else if even f then f else f + 1)"

text \<open>The binary exponent \<open>e\<close> of a positive \<open>x\<close>: \<open>2 ^ e \<le> x < 2 ^ (e + 1)\<close>.\<close>

definition exponent :: "real \<Rightarrow> int" where
  "exponent x =
     (if 1 \<le> x then int (floorlog 2 (nat \<lfloor>x\<rfloor>)) - 1
      else - int (floorlog 2 (nat (\<lceil>1 / x\<rceil> - 1))))"

definition pow2 :: "int \<Rightarrow> real" where
  "pow2 e = (if 0 \<le> e then 2 ^ nat e else 1 / 2 ^ nat (- e))"

definition binary64 :: "real \<Rightarrow> real" where
  "binary64 x =
     (if x = 0 then 0
      else let ulp = pow2 (exponent \<bar>x\<bar> - 52)
           in sgn x * of_int (round_half_even (\<bar>x\<bar> / ulp)) * ulp)"

subsection \<open>The centre crop\<close>

record crop =
  sx :: number
  sy :: number
  sWidth :: number
  sHeight :: number

text \<open>
  A quotient of two numbers is a double, an infinity or NaN; the sizes that reach
  \<open>draw\<close> are non-negative integers, so a zero divisor is \<open>+0\<close>.
\<close>

datatype ratio = Finite real | PosInf | NegInf | NaN

definition js_divide :: "(real \<Rightarrow> real) \<Rightarrow> number \<Rightarrow> number \<Rightarrow> ratio" where
  "js_divide rnd x y =
     (if y = 0 then (if 0 < x then PosInf else if x < 0 then NegInf else NaN)
      else Finite (rnd (x / y)))"

text \<open>\<open>a > b\<close> on such values: false as soon as one side is NaN.\<close>

fun js_greater :: "ratio \<Rightarrow> ratio \<Rightarrow> bool" where
  "js_greater (Finite a) (Finite b) = (b < a)"
| "js_greater (Finite a) NegInf = True"
| "js_greater PosInf (Finite b) = True"
| "js_greater PosInf NegInf = True"
| "js_greater _ _ = False"

text \<open>
  Lines 89 to 108 of \<open>draw\<close>. The result is \<open>None\<close> when a component of the
  rectangle is infinite or NaN: in the first branch when \<open>vh * cRatio\<close> is (an
  infinite \<open>cRatio\<close>), in the second when \<open>vw / cRatio\<close> is (\<open>cRatio\<close> zero or
  NaN). Dividing by an infinite \<open>cRatio\<close> gives zero.
\<close>

definition crop_rect ::
    "(real \<Rightarrow> real) \<Rightarrow> number \<Rightarrow> number \<Rightarrow> number \<Rightarrow> number \<Rightarrow> crop option" where
  "crop_rect rnd vw vh cw ch =
     (let vRatio = js_divide rnd vw vh;
          cRatio = js_divide rnd cw ch
      in if js_greater vRatio cRatio then
           (case cRatio of
              Finite c \<Rightarrow>
                Some \<lparr>sx = rnd (rnd (vw - rnd (vh * c)) / 2),
                      sy = 0,
                      sWidth = rnd (vh * c),
                      sHeight = vh\<rparr>
            | PosInf \<Rightarrow> None
            | NegInf \<Rightarrow> None
            | NaN \<Rightarrow> None)
         else
           (case cRatio of
              Finite c \<Rightarrow>
                if c = 0 then None
                else
                  Some \<lparr>sx = 0,
                        sy = rnd (rnd (vh - rnd (vw / c)) / 2),
                        sWidth = vw,
                        sHeight = rnd (vw / c)\<rparr>
            | PosInf \<Rightarrow>
                Some \<lparr>sx = 0, sy = rnd (rnd (vh - 0) / 2), sWidth = vw, sHeight = 0\<rparr>
            | NegInf \<Rightarrow>
                Some \<lparr>sx = 0, sy = rnd (rnd (vh - 0) / 2), sWidth = vw, sHeight = 0\<rparr>
            | NaN \<Rightarrow> None))"

subsection \<open>The drawing loop\<close>

record video =
  videoWidth :: nat
  videoHeight :: nat

text \<open>\<open>has_context\<close>: whether \<open>getContext('2d')\<close> returns a context on this canvas.\<close>

record canvas =
  canvas_width :: nat
  canvas_height :: nat
  has_context :: bool

record drawImage_call =
  source_rect :: "crop option"
  dWidth :: nat
  dHeight :: nat

text \<open>
  \<open>pending\<close> holds the handles of the callbacks registered with
  \<open>requestAnimationFrame\<close> that have not run yet; every one of them is \<open>draw\<close>.
\<close>

record compositor =
  videoRef :: "video option"
  canvasRef :: "canvas option"
  animationFrameRef :: "nat option"
  pending :: "nat list"
  next_request :: nat
  drawn :: "drawImage_call list"

definition requestAnimationFrame :: "compositor \<Rightarrow> compositor" where
  "requestAnimationFrame s =
     s\<lparr>animationFrameRef := Some (next_request s),
       pending := pending s @ [next_request s],
       next_request := Suc (next_request s)\<rparr>"

definition resize :: "VideoConfig \<Rightarrow> canvas \<Rightarrow> canvas" where
  "resize config c =
     (if canvas_width c = width config \<and> canvas_height c = height config then c
      else c\<lparr>canvas_width := width config, canvas_height := height config\<rparr>)"

definition draw :: "(real \<Rightarrow> real) \<Rightarrow> AspectRatio \<Rightarrow> compositor \<Rightarrow> compositor" where
  "draw rnd aspectRatio s =
     (case videoRef s of
        None \<Rightarrow> s
      | Some v \<Rightarrow>
          (case canvasRef s of
             None \<Rightarrow> s
           | Some c \<Rightarrow>
               if has_context c then
                 let config = ASPECT_RATIO_CONFIGS aspectRatio;
                     c' = resize config c;
                     r = crop_rect rnd (real (videoWidth v)) (real (videoHeight v))
                           (real (width config)) (real (height config))
                 in requestAnimationFrame
                      (s\<lparr>canvasRef := Some c',
                         drawn := drawn s @
                           [\<lparr>source_rect = r, dWidth = width config, dHeight = height config\<rparr>]\<rparr>)
               else s))"

text \<open>The pass is skipped when one of the two guards of \<open>draw\<close> returns.\<close>

definition pass_skipped :: "compositor \<Rightarrow> bool" where
  "pass_skipped s =
     (case videoRef s of
        None \<Rightarrow> True
      | Some v \<Rightarrow> (case canvasRef s of None \<Rightarrow> True | Some c \<Rightarrow> \<not> has_context c))"

text \<open>A display refresh runs the callback that is first in line.\<close>

definition refresh :: "(real \<Rightarrow> real) \<Rightarrow> AspectRatio \<Rightarrow> compositor \<Rightarrow> compositor" where
  "refresh rnd aspectRatio s =
     (case pending s of
        [] \<Rightarrow> s
      | h # hs \<Rightarrow> draw rnd aspectRatio (s\<lparr>pending := hs\<rparr>))"

text \<open>
  The effect that starts the loop once the camera stream exists has registered one
  callback. Three compositors in that situation: all is well; the canvas gives no
  2D context; the video element is missing.
\<close>

definition running_compositor :: compositor where
  "running_compositor =
     \<lparr>videoRef = Some \<lparr>videoWidth = 1920, videoHeight = 1080\<rparr>,
      canvasRef = Some \<lparr>canvas_width = 300, canvas_height = 150, has_context = True\<rparr>,
      animationFrameRef = Some 1, pending = [1], next_request = 2, drawn = []\<rparr>"

definition contextless_compositor :: compositor where
  "contextless_compositor =
     running_compositor
       \<lparr>canvasRef := Some \<lparr>canvas_width = 300, canvas_height = 150, has_context = False\<rparr>\<rparr>"

definition sourceless_compositor :: compositor where
  "sourceless_compositor = running_compositor\<lparr>videoRef := None\<rparr>"

section \<open>Capture Session: the recording effect (components/Recorder)\<close>

type_synonym chunk = "8 word list"

datatype recording_state = Inactive | Recording | Paused

text \<open>
  A \<open>MediaRecorder\<close>: its \<open>state\<close> attribute and the data it has gathered since
  it last fired \<open>dataavailable\<close>. The effect can create several; they live in
  \<open>recorders\<close> and \<open>mediaRecorderRef\<close> names one by its position.
\<close>

record media_recorder =
  recorder_state :: recording_state
  gathered :: chunk

datatype event = Dataavailable nat chunk | Stop nat

record blob =
  parts :: "chunk list"
  blob_type :: string

record capture =
  capture_canvas :: bool
  recorders :: "media_recorder list"
  mediaRecorderRef :: "nat option"
  chunksRef :: "chunk list"
  events :: "event list"
  recordingComplete :: "blob list"
  interviewer :: hook

text \<open>
  \<open>MediaRecorder.stop()\<close> on a recorder that is not inactive: the state becomes
  inactive and a task is queued that fires \<open>dataavailable\<close> with the gathered
  data and then \<open>stop\<close>.
\<close>

definition recorder_stop :: "nat \<Rightarrow> capture \<Rightarrow> capture" where
  "recorder_stop r s =
     s\<lparr>recorders := (recorders s)[r := \<lparr>recorder_state = Inactive, gathered = []\<rparr>],
       events := events s @ [Dataavailable r (gathered (recorders s ! r)), Stop r]\<rparr>"

text \<open>The body of the effect that depends on \<open>isRecording\<close> (lines 130 to 171).\<close>

definition recording_effect :: "bool \<Rightarrow> capture \<Rightarrow> capture" where
  "recording_effect isRecording s =
     (if isRecording then
        (if capture_canvas s then
           s\<lparr>recorders := recorders s @ [\<lparr>recorder_state = Recording, gathered = []\<rparr>],
             mediaRecorderRef := Some (length (recorders s)),
             chunksRef := []\<rparr>
         else s)
      else
        (case mediaRecorderRef s of
           None \<Rightarrow> s
         | Some r \<Rightarrow>
             if r < length (recorders s) then
               (if recorder_state (recorders s ! r) = Inactive then s else recorder_stop r s)
             else s))"

definition ondataavailable :: "chunk \<Rightarrow> capture \<Rightarrow> capture" where
  "ondataavailable d s = (if 0 < length d then s\<lparr>chunksRef := chunksRef s @ [d]\<rparr> else s)"

definition onstop :: "capture \<Rightarrow> capture" where
  "onstop s =
     s\<lparr>recordingComplete :=
         recordingComplete s @ [\<lparr>parts = chunksRef s, blob_type = ''video/mp4''\<rparr>],
       interviewer := (interviewer s)\<lparr>currentQuestion := []\<rparr>\<rparr>"

fun dispatch :: "event \<Rightarrow> capture \<Rightarrow> capture" where
  "dispatch (Dataavailable r d) s = ondataavailable d s"
| "dispatch (Stop r) s = onstop s"

text \<open>The event loop delivers every queued event, in order.\<close>

definition run_events :: "capture \<Rightarrow> capture" where
  "run_events s = fold dispatch (events s) (s\<lparr>events := []\<rparr>)"

definition stop :: "capture \<Rightarrow> capture" where
  "stop s = recording_effect False s"

text \<open>A session is active when the ref names a recorder that is not inactive.\<close>

definition session_active :: "capture \<Rightarrow> bool" where
  "session_active s =
     (case mediaRecorderRef s of
        None \<Rightarrow> False
      | Some r \<Rightarrow> r < length (recorders s) \<and> recorder_state (recorders s ! r) \<noteq> Inactive)"

definition idle_capture :: capture where
  "idle_capture =
     \<lparr>capture_canvas = True, recorders = [], mediaRecorderRef = None,
      chunksRef = [], events = [], recordingComplete = [], interviewer = initial_hook\<rparr>"

text \<open>A session that is recording and has already delivered one chunk.\<close>

definition active_capture :: capture where
  "active_capture =
     ondataavailable [26, 69, 223, 163]
       ((recording_effect True idle_capture)
          \<lparr>recorders := [\<lparr>recorder_state = Recording, gathered = [1, 2, 3]\<rparr>]\<rparr>)"

section \<open>Proofs: Audio Uplink Codec\<close>

lemma index_of_nth: "distinct xs \<Longrightarrow> n < length xs \<Longrightarrow> index_of (xs ! n) xs = n"
proof (induction xs arbitrary: n)
  case Nil
  then show ?case by simp
next
  case (Cons y ys)
  show ?case
  proof (cases n)
    case 0
    then show ?thesis by simp
  next
    case (Suc m)
    with Cons.prems have m: "m < length ys" "y \<notin> set ys" "distinct ys" by auto
    then have "ys ! m \<noteq> y" by auto
    with Suc Cons.IH [of m] m show ?thesis by simp
  qed
qed

lemma b64_alphabet_distinct: "distinct b64_alphabet"
  by (simp add: b64_alphabet_def)

lemma b64_alphabet_length: "length b64_alphabet = 64"
  by (simp add: b64_alphabet_def)

lemma b64_index_char: "n < 64 \<Longrightarrow> b64_index (b64_char n) = n"
  by (simp add: b64_index_def b64_char_def index_of_nth b64_alphabet_distinct
      b64_alphabet_length)

lemma b64_char_not_pad: "b64_char n \<noteq> CHR ''=''"
proof -
  have "b64_alphabet ! (n mod 64) \<in> set b64_alphabet"
    by (rule nth_mem) (simp add: b64_alphabet_length)
  moreover have "CHR ''='' \<notin> set b64_alphabet"
    by (simp add: b64_alphabet_def)
  ultimately show ?thesis by (auto simp: b64_char_def)
qed

lemma unat8_lt: "unat (a :: 8 word) < 256"
  using unsigned_less [of a] by simp

lemma sextet1_lt: "x < 256 \<Longrightarrow> x div 4 < (64::nat)"
  by simp

lemma sextet2_lt:
  assumes "y < 256"
  shows "x mod 4 * 16 + y div 16 < (64::nat)"
proof -
  have "y div 16 < 16" using assms by simp
  moreover have "x mod 4 < 4" by simp
  ultimately show ?thesis by linarith
qed

lemma sextet3_lt:
  assumes "z < 256"
  shows "y mod 16 * 4 + z div 64 < (64::nat)"
proof -
  have "z div 64 < 4" using assms by simp
  moreover have "y mod 16 < 16" by simp
  ultimately show ?thesis by linarith
qed

lemma sextet3_pad_lt: "y mod 16 * 4 < (64::nat)"
proof -
  have "y mod 16 < 16" by simp
  then show ?thesis by linarith
qed

lemma sextet2_pad_lt: "x mod 4 * 16 < (64::nat)"
proof -
  have "x mod 4 < 4" by simp
  then show ?thesis by linarith
qed

lemma b64_byte1: "y < 256 \<Longrightarrow> x div 4 * 4 + (x mod 4 * 16 + y div 16) div 16 = (x::nat)"
  by simp

lemma b64_byte1_pad: "x div 4 * 4 + (x mod 4 * 16) div 16 = (x::nat)"
  by simp

lemma b64_byte2:
  assumes "y < 256" "z < 256"
  shows "(x mod 4 * 16 + y div 16) mod 16 * 16 + (y mod 16 * 4 + z div 64) div 4 = (y::nat)"
proof -
  have "y div 16 < 16" "z div 64 < 4" using assms by simp_all
  then have "(x mod 4 * 16 + y div 16) mod 16 = y div 16"
    and "(y mod 16 * 4 + z div 64) div 4 = y mod 16" by simp_all
  then show ?thesis by simp
qed

lemma b64_byte2_pad:
  assumes "y < 256"
  shows "(x mod 4 * 16 + y div 16) mod 16 * 16 + (y mod 16 * 4) div 4 = (y::nat)"
proof -
  have "y div 16 < 16" using assms by simp
  then have "(x mod 4 * 16 + y div 16) mod 16 = y div 16" by simp
  then show ?thesis by simp
qed

lemma b64_byte3:
  assumes "z < 256"
  shows "(y mod 16 * 4 + z div 64) mod 4 * 64 + z mod 64 = (z::nat)"
proof -
  have "z div 64 < 4" using assms by simp
  then have "(y mod 16 * 4 + z div 64) mod 4 = z div 64" by simp
  then show ?thesis by simp
qed

lemma le_bytes_inverse: "int16_of_bytes (le_bytes w @ bs) = w # int16_of_bytes bs"
proof -
  have "push_bit 8 (ucast (ucast (drop_bit 8 w) :: 8 word)) OR ucast (ucast w :: 8 word) = w"
    by (rule bit_word_eqI) (auto simp: bit_simps)
  then show ?thesis by (simp add: le_bytes_def)
qed

lemma int16_of_buffer_bytes: "int16_of_bytes (buffer_bytes ws) = ws"
  by (induction ws) (simp_all add: le_bytes_inverse)

lemma b64_decode_quad:
  assumes "c3 \<noteq> CHR ''=''" "c4 \<noteq> CHR ''=''"
  shows "b64_decode (c1 # c2 # c3 # c4 # rest) =
        [word_of_nat (b64_index c1 * 4 + b64_index c2 div 16),
         word_of_nat (b64_index c2 mod 16 * 16 + b64_index c3 div 4),
         word_of_nat (b64_index c3 mod 4 * 64 + b64_index c4)] @ b64_decode rest"
  using assms by simp

lemma b64_decode_btoa: "b64_decode (btoa bs) = bs"
proof (induction bs rule: btoa.induct)
  case (1 a b c rest)
  note lt = unat8_lt [of a] unat8_lt [of b] unat8_lt [of c]
  have "b64_decode (btoa (a # b # c # rest)) =
      [word_of_nat (unat a div 4 * 4 + (unat a mod 4 * 16 + unat b div 16) div 16),
       word_of_nat ((unat a mod 4 * 16 + unat b div 16) mod 16 * 16 + (unat b mod 16 * 4 + unat c div 64) div 4),
       word_of_nat ((unat b mod 16 * 4 + unat c div 64) mod 4 * 64 + unat c mod 64)] @ b64_decode (btoa rest)"
    using lt
    by (simp add: b64_decode_quad b64_char_not_pad b64_index_char sextet1_lt sextet2_lt sextet3_lt
          del: b64_decode.simps)
  also have "\<dots> = [a, b, c] @ rest"
    using lt 1 by (simp only: b64_byte1 b64_byte2 b64_byte3 of_nat_unat ucast_id)
  finally show ?case by simp
next
  case (2 a b)
  note lt = unat8_lt [of a] unat8_lt [of b]
  have "b64_decode (btoa [a, b]) =
      [word_of_nat (unat a div 4 * 4 + (unat a mod 4 * 16 + unat b div 16) div 16),
       word_of_nat ((unat a mod 4 * 16 + unat b div 16) mod 16 * 16 + (unat b mod 16 * 4) div 4)]"
    using lt
    by (simp add: b64_char_not_pad b64_index_char sextet1_lt sextet2_lt sextet3_pad_lt)
  also have "\<dots> = [a, b]"
    using lt by (simp only: b64_byte1 b64_byte2_pad of_nat_unat ucast_id)
  finally show ?case .
next
  case (3 a)
  have "b64_decode (btoa [a]) = [word_of_nat (unat a div 4 * 4 + (unat a mod 4 * 16) div 16)]"
    using unat8_lt [of a]
    by (simp add: b64_char_not_pad b64_index_char sextet1_lt sextet2_pad_lt)
  also have "\<dots> = [a]"
    by (simp only: b64_byte1_pad of_nat_unat ucast_id)
  finally show ?case .
next
  case 4
  show ?case by simp
qed

lemma decode_createBlob: "decode_pcm16 (data (createBlob samples)) = map sint (quantize samples)"
  by (simp add: decode_pcm16_def createBlob_def b64_decode_btoa int16_of_buffer_bytes)

lemma js_trunc_bounds:
  assumes "- 1 \<le> s" "s < 1"
  shows "- 32768 \<le> js_trunc (s * 32768)" "js_trunc (s * 32768) \<le> 32767"
proof -
  have a: "- 32768 \<le> s * 32768" "s * 32768 < 32768" using assms by simp_all
  show "- 32768 \<le> js_trunc (s * 32768)"
  proof (cases "s < 0")
    case True
    have "of_int (- 32768) \<le> s * 32768" using a by simp
    then have "- 32768 \<le> \<lceil>s * 32768\<rceil>" by (meson le_of_int_ceiling of_int_le_iff order_trans)
    with True show ?thesis by (simp add: js_trunc_def mult_less_0_iff)
  next
    case False
    then have "0 \<le> \<lfloor>s * 32768\<rfloor>" by simp
    with False show ?thesis by (simp add: js_trunc_def mult_less_0_iff)
  qed
  have "js_trunc (s * 32768) < 32768"
    using a by (auto simp: js_trunc_def floor_less_iff ceiling_less_iff)
  then show "js_trunc (s * 32768) \<le> 32767" by simp
qed

lemma sint_ToInt16_in_range:
  assumes "- 32768 \<le> js_trunc x" "js_trunc x \<le> 32767"
  shows "sint (ToInt16 x) = js_trunc x"
  using assms by (simp add: ToInt16_def sint_sbintrunc' signed_take_bit_int_eq_self)

lemma sint_ToInt16_one: "sint (ToInt16 (1 * 32768)) = - 32768"
  by (simp add: ToInt16_def js_trunc_def)

lemma sint_quantize:
  assumes "\<forall>s\<in>set samples. - 1 \<le> s \<and> s \<le> 1"
  shows "map sint (quantize samples) =
         map (\<lambda>s. if s = 1 then - 32768 else js_trunc (s * 32768)) samples"
  using assms
proof (induction samples)
  case Nil
  then show ?case by simp
next
  case (Cons s samples)
  then have s: "- 1 \<le> s" "s \<le> 1" by simp_all
  have "sint (ToInt16 (s * 32768)) = (if s = 1 then - 32768 else js_trunc (s * 32768))"
  proof (cases "s = 1")
    case True
    then show ?thesis using sint_ToInt16_one by simp
  next
    case False
    with s have "s < 1" by simp
    with s(1) show ?thesis
      using False by (simp add: sint_ToInt16_in_range js_trunc_bounds)
  qed
  with Cons show ?case by simp
qed

lemma sint_ToInt16: "sint (ToInt16 x) = (js_trunc x + 32768) mod 65536 - 32768"
  by (simp add: ToInt16_def int_word_sint)

text \<open>
  Claim C2, as amended. For samples in \<open>[-1, 1]\<close>, decoding the base64 payload of
  the packet as little-endian 16-bit integers gives, at every position, the scaled
  sample \<open>s * 32768\<close> truncated towards zero (not rounded), and \<open>-32768\<close> for the
  sample 1, whose scaled value 32768 does not fit 16 bits.
\<close>

theorem createBlob_truncates:
  assumes "\<forall>s\<in>set samples. - 1 \<le> s \<and> s \<le> 1"
  shows "decode_pcm16 (data (createBlob samples)) =
         map (\<lambda>s. if s = 1 then - 32768 else js_trunc (s * 32768)) samples"
  using assms by (simp only: decode_createBlob sint_quantize)

theorem createBlob_truncates_witness:
  "decode_pcm16 (data (createBlob [1, - 1, 1 / 2, 3 / 131072, - 3 / 131072, 32767 / 32768])) =
     [- 32768, - 32768, 16384, 0, 0, 32767]"
  using createBlob_truncates [of "[1, - 1, 1 / 2, 3 / 131072, - 3 / 131072, 32767 / 32768]"]
  by (simp add: js_trunc_def)

text \<open>
  Claim C2 as the specification states it fails: the sample \<open>3 / 131072\<close> scales to
  \<open>3 / 4\<close>, which rounds to 1, and the packet decodes to 0.
\<close>

theorem createBlob_not_round:
  "- 1 \<le> (3 / 131072 :: real) \<and> (3 / 131072 :: real) \<le> 1 \<and>
   round ((3 / 131072 :: real) * 32768) = 1 \<and>
   decode_pcm16 (data (createBlob [3 / 131072])) \<noteq> [round ((3 / 131072 :: real) * 32768)]"
  by (simp add: decode_createBlob ToInt16_def js_trunc_def round_def)

text \<open>
  Claim C10. The stored 16-bit value is the scaled sample truncated towards zero
  and reduced modulo \<open>2 ^ 16\<close> into the signed range; the sample 1.0 scales to
  32768 and is encoded as \<open>-32768\<close> (payload \<open>AIA=\<close>: the bytes 0x00, 0x80).
\<close>

theorem createBlob_one_wraps:
  "js_trunc (1 * 32768) = 32768 \<and>
   sint (ToInt16 x) = (js_trunc x + 32768) mod 65536 - 32768 \<and>
   map sint (quantize [1]) = [- 32768] \<and>
   data (createBlob [1]) = ''AIA='' \<and>
   decode_pcm16 (data (createBlob [1])) = [- 32768]"
proof -
  have "js_trunc (1 * 32768) = 32768"
    by (simp add: js_trunc_def)
  moreover have "map sint (quantize [1]) = [- 32768]"
    by (simp add: ToInt16_def js_trunc_def)
  moreover have "data (createBlob [1]) = ''AIA=''"
    by (simp add: createBlob_def ToInt16_def js_trunc_def le_bytes_def b64_char_def
        b64_alphabet_def)
  moreover have "decode_pcm16 (data (createBlob [1])) = [- 32768]"
    by (simp add: decode_createBlob ToInt16_def js_trunc_def)
  ultimately show ?thesis
    using sint_ToInt16 [of x] by simp
qed

section \<open>Proofs: Realtime Assistant Session\<close>

lemmas cleanup_steps = cleanup_def close_session_def disconnect_processor_def
  disconnect_source_def close_context_def and_then_def assign_def invoke_def

lemma cleanup_resets:
  "isConnected (snd (cleanup throws h)) = False \<and> currentQuestion (snd (cleanup throws h)) = []"
  by (simp add: cleanup_steps split: option.split)

lemma cleanup_completes:
  assumes "\<forall>c\<in>set (teardown_calls h). \<not> throws c"
  shows "cleanup throws h =
    (Completed, h\<lparr>isConnected := False, currentQuestion := [], sessionRef := None,
       scriptProcessorRef := None, sourceRef := None, audioContextRef := None,
       calls := calls h @ teardown_calls h\<rparr>)"
  using assms
  by (cases "sessionRef h"; cases "scriptProcessorRef h"; cases "sourceRef h"; cases "audioContextRef h")
     (simp_all add: cleanup_steps teardown_calls_def)

lemma onmessage_fragment:
  "currentQuestion (onmessage message h) = currentQuestion h @ fragment_of message"
  by (simp add: onmessage_def append_transcription_def log_turn_complete_def fragment_of_def
      split: option.split)

lemma onmessages_fragments:
  "currentQuestion (onmessages messages h) = currentQuestion h @ concat (map fragment_of messages)"
  by (induction messages arbitrary: h) (simp_all add: onmessage_fragment)

lemma fragment_of_text_event: "fragment_of (text_event fragment) = fragment"
  by (simp add: fragment_of_def text_event_def)

lemma onmessages_text_events:
  "currentQuestion (onmessages (map text_event fragments) h) = currentQuestion h @ concat fragments"
  by (simp add: onmessages_fragments comp_def fragment_of_text_event)

lemma onmessages_example:
  "currentQuestion
     (onmessages (map text_event [''Wh'', ''at'', '' do'', '' you'', '' love?'']) initial_hook) =
   ''What do you love?''"
  using onmessages_text_events [of "[''Wh'', ''at'', '' do'', '' you'', '' love?'']" initial_hook]
  by (simp add: initial_hook_def)

lemma trim_example: "trim ''What do you love?'' = ''What do you love?''"
  by (simp add: trim_def is_space_def)

lemma onmessage_turn_complete:
  "onmessage turn_complete_event h = h\<lparr>console := console h @ [''Turn complete'']\<rparr>"
  by (simp add: onmessage_def append_transcription_def log_turn_complete_def turn_complete_event_def)

lemma onmessage_flag_irrelevant:
  "currentQuestion (onmessage \<lparr>serverContent = Some (sc\<lparr>turnComplete := b\<rparr>)\<rparr> h) =
   currentQuestion (onmessage \<lparr>serverContent = Some sc\<rparr> h)"
  by (simp add: onmessage_def append_transcription_def log_turn_complete_def split: option.split)

text \<open>
  Claim C4, as amended. On deactivation \<open>cleanup\<close> first sets the state to
  disconnected and clears the prompt, whatever happens afterwards. It then runs the
  teardown actions in sequence (close the remote session, disconnect and discard the
  processing node, disconnect and discard the source node, close the audio context),
  each only for a handle that is present. When none of the calls it makes throws,
  all of them execute and every handle is cleared. The actions are not guarded one
  by one.
\<close>

theorem cleanup_sequential:
  "isConnected (snd (cleanup throws h)) = False \<and>
   currentQuestion (snd (cleanup throws h)) = [] \<and>
   ((\<forall>c\<in>set (teardown_calls h). \<not> throws c) \<longrightarrow>
      cleanup throws h =
        (Completed, h\<lparr>isConnected := False, currentQuestion := [], sessionRef := None,
           scriptProcessorRef := None, sourceRef := None, audioContextRef := None,
           calls := calls h @ teardown_calls h\<rparr>))"
  using cleanup_resets [of throws h] cleanup_completes [of h throws] by blast

theorem cleanup_sequential_witness:
  "cleanup (disconnect_throws 7) connected_hook =
     (Completed, connected_hook\<lparr>isConnected := False, currentQuestion := [], sessionRef := None,
        scriptProcessorRef := None, sourceRef := None, audioContextRef := None,
        calls := [Then_close 2, Node_disconnect 4, Node_disconnect 3, Context_close 1]\<rparr>)"
proof -
  have "\<forall>c\<in>set (teardown_calls connected_hook). \<not> disconnect_throws 7 c"
    by (simp add: teardown_calls_def connected_hook_def connecting_hook_def onopen_def
        connectToGemini_def initial_hook_def disconnect_throws_def)
  moreover have "calls connected_hook @ teardown_calls connected_hook =
      [Then_close 2, Node_disconnect 4, Node_disconnect 3, Context_close 1]"
    by (simp add: teardown_calls_def connected_hook_def connecting_hook_def onopen_def
        connectToGemini_def initial_hook_def)
  ultimately show ?thesis
    using cleanup_sequential [of "disconnect_throws 7" connected_hook] by simp
qed

text \<open>
  Claim C4 as the specification states it fails: when disconnecting the processing
  node throws, the source node is not disconnected, the audio context is not closed,
  and both refs (and the processor's) keep their handles.
\<close>

theorem cleanup_unguarded:
  "fst (cleanup (disconnect_throws 4) connected_hook) = Threw \<and>
   scriptProcessorRef (snd (cleanup (disconnect_throws 4) connected_hook)) = Some 4 \<and>
   sourceRef (snd (cleanup (disconnect_throws 4) connected_hook)) = Some 3 \<and>
   audioContextRef (snd (cleanup (disconnect_throws 4) connected_hook)) = Some 1 \<and>
   calls (snd (cleanup (disconnect_throws 4) connected_hook)) = [Then_close 2]"
  by (simp add: cleanup_steps connected_hook_def connecting_hook_def onopen_def
      connectToGemini_def initial_hook_def disconnect_throws_def)

lemma no_throw_calls: "\<forall>c\<in>set cs. \<not> no_throw c"
  by (simp add: no_throw_def)

lemma cleanup_no_throw:
  "cleanup no_throw h =
    (Completed, h\<lparr>isConnected := False, currentQuestion := [], sessionRef := None,
       scriptProcessorRef := None, sourceRef := None, audioContextRef := None,
       calls := calls h @ teardown_calls h\<rparr>)"
  by (rule cleanup_completes) (rule no_throw_calls)

text \<open>
  Claim C5. From every state of the hook (whatever handles are present, so also
  never connected, connecting, connected and remotely closed), teardown on the
  browser platform completes, leaves the session disconnected with an empty prompt
  and every handle cleared, and a second teardown completes and changes nothing.
\<close>

theorem cleanup_idempotent:
  "fst (cleanup no_throw h) = Completed \<and>
   isConnected (snd (cleanup no_throw h)) = False \<and>
   currentQuestion (snd (cleanup no_throw h)) = [] \<and>
   sessionRef (snd (cleanup no_throw h)) = None \<and>
   audioContextRef (snd (cleanup no_throw h)) = None \<and>
   scriptProcessorRef (snd (cleanup no_throw h)) = None \<and>
   sourceRef (snd (cleanup no_throw h)) = None \<and>
   cleanup no_throw (snd (cleanup no_throw h)) = (Completed, snd (cleanup no_throw h))"
  by (simp add: cleanup_no_throw teardown_calls_def)

theorem cleanup_idempotent_witness:
  "cleanup no_throw (snd (cleanup no_throw initial_hook)) = (Completed, initial_hook) \<and>
   cleanup no_throw (snd (cleanup no_throw connecting_hook)) =
     (Completed, connecting_hook\<lparr>sessionRef := None, audioContextRef := None,
        calls := [Then_close 2, Context_close 1]\<rparr>) \<and>
   cleanup no_throw (snd (cleanup no_throw connected_hook)) =
     (Completed, connected_hook\<lparr>isConnected := False, sessionRef := None, audioContextRef := None,
        scriptProcessorRef := None, sourceRef := None,
        calls := [Then_close 2, Node_disconnect 4, Node_disconnect 3, Context_close 1]\<rparr>)"
  using cleanup_idempotent [of initial_hook] cleanup_idempotent [of connecting_hook]
    cleanup_idempotent [of connected_hook]
  by (simp add: cleanup_no_throw teardown_calls_def connected_hook_def connecting_hook_def
      onopen_def connectToGemini_def initial_hook_def)

text \<open>
  Claim C6. Incremental text events append their fragments to the prompt in arrival
  order, every fragment once (the prompt afterwards is the old prompt followed by the
  concatenation of the fragments); the fragments \<open>Wh\<close>, \<open>at\<close>, \<open> do\<close>, \<open> you\<close>,
  \<open> love?\<close> from an empty prompt give \<open>What do you love?\<close>, also as displayed.
\<close>

theorem onmessages_appends_in_order:
  "currentQuestion (onmessages messages h) =
     currentQuestion h @ concat (map fragment_of messages) \<and>
   currentQuestion (onmessages (map text_event fragments) h) =
     currentQuestion h @ concat fragments \<and>
   currentQuestion
     (onmessages (map text_event [''Wh'', ''at'', '' do'', '' you'', '' love?'']) initial_hook) =
     ''What do you love?'' \<and>
   displayed_question
     (onmessages (map text_event [''Wh'', ''at'', '' do'', '' you'', '' love?'']) initial_hook) =
     ''What do you love?''"
  using onmessages_fragments [of messages h] onmessages_text_events [of fragments h]
    onmessages_example trim_example
  by (simp only: displayed_question_def simp_thms)

text \<open>
  Claim C8. A turn-complete event only writes a console line: the prompt is
  unchanged, and on any message the turn-complete flag has no influence on the
  prompt. The prompt is cleared by the recorder's \<open>onstop\<close> handler and by
  teardown.
\<close>

theorem turn_complete_keeps_prompt:
  "onmessage turn_complete_event h = h\<lparr>console := console h @ [''Turn complete'']\<rparr> \<and>
   currentQuestion (onmessage turn_complete_event h) = currentQuestion h \<and>
   currentQuestion (onmessage \<lparr>serverContent = Some (sc\<lparr>turnComplete := b\<rparr>)\<rparr> h) =
     currentQuestion (onmessage \<lparr>serverContent = Some sc\<rparr> h) \<and>
   currentQuestion (interviewer (onstop s)) = [] \<and>
   currentQuestion (snd (cleanup throws h)) = []"
  using cleanup_resets [of throws h]
  by (simp add: onmessage_turn_complete onmessage_flag_irrelevant onstop_def)

section \<open>Proofs: Frame Compositor\<close>

lemma crop_rect_wider:
  assumes "0 < vh" "0 < ch" "cw / ch < vw / vh"
  shows "crop_rect exact vw vh cw ch =
    Some \<lparr>sx = (vw - vh * (cw / ch)) / 2, sy = 0, sWidth = vh * (cw / ch), sHeight = vh\<rparr>"
  using assms by (simp add: crop_rect_def js_divide_def exact_def Let_def)

lemma crop_rect_taller:
  assumes "0 < vh" "0 < ch" "0 < cw" "\<not> cw / ch < vw / vh"
  shows "crop_rect exact vw vh cw ch =
    Some \<lparr>sx = 0, sy = (vh - vw / (cw / ch)) / 2, sWidth = vw, sHeight = vw / (cw / ch)\<rparr>"
  using assms by (simp add: crop_rect_def js_divide_def exact_def Let_def)

lemma wider_fits:
  fixes vw vh cw ch :: real
  assumes "0 < vh" "0 < ch" "cw / ch < vw / vh"
  shows "vh * (cw / ch) \<le> vw"
proof -
  have "vh * (cw / ch) < vh * (vw / vh)"
    using assms by (simp only: mult_less_cancel_left_pos)
  then show ?thesis using assms by simp
qed

lemma taller_fits:
  fixes vw vh cw ch :: real
  assumes "0 < vh" "0 < ch" "0 < cw" "\<not> cw / ch < vw / vh"
  shows "vw / (cw / ch) \<le> vh"
proof -
  have "vw / vh \<le> cw / ch" using assms by simp
  then have "vw * ch \<le> cw * vh" using assms by (simp add: field_simps)
  then show ?thesis using assms by (simp add: field_simps)
qed

lemma centred_offset:
  fixes a b :: real
  assumes "a \<le> b"
  shows "0 \<le> (b - a) / 2" and "(b - a) / 2 + a \<le> b"
  using assms by (simp_all add: field_simps)

text \<open>
  Were every operation exact, the rectangle would lie inside the source frame, have
  the target's aspect ratio exactly, and be centred exactly.
\<close>

lemma crop_rect_exact_geometry:
  assumes "0 < vw" "0 < vh" "0 < cw" "0 < ch"
  shows "\<exists>r. crop_rect exact vw vh cw ch = Some r \<and>
    0 \<le> sx r \<and> 0 \<le> sy r \<and> sx r + sWidth r \<le> vw \<and> sy r + sHeight r \<le> vh \<and>
    0 < sHeight r \<and> sWidth r / sHeight r = cw / ch \<and>
    sx r = (vw - sWidth r) / 2 \<and> sy r = (vh - sHeight r) / 2"
proof (cases "cw / ch < vw / vh")
  case True
  let ?w = "vh * (cw / ch)"
  let ?r = "\<lparr>sx = (vw - ?w) / 2, sy = 0, sWidth = ?w, sHeight = vh\<rparr>"
  have fits: "?w \<le> vw"
    using assms(2) assms(4) True by (rule wider_fits)
  have "crop_rect exact vw vh cw ch = Some ?r"
    using assms(2) assms(4) True by (rule crop_rect_wider)
  moreover have "0 \<le> sx ?r" "sx ?r + sWidth ?r \<le> vw"
    using centred_offset [OF fits] by simp_all
  moreover have "0 \<le> sy ?r" "sy ?r + sHeight ?r \<le> vh" by simp_all
  moreover have "0 < sHeight ?r" "sWidth ?r / sHeight ?r = cw / ch"
    using assms(2) by simp_all
  moreover have "sx ?r = (vw - sWidth ?r) / 2" "sy ?r = (vh - sHeight ?r) / 2" by simp_all
  ultimately show ?thesis by blast
next
  case False
  let ?h = "vw / (cw / ch)"
  let ?r = "\<lparr>sx = 0, sy = (vh - ?h) / 2, sWidth = vw, sHeight = ?h\<rparr>"
  have fits: "?h \<le> vh"
    using assms(2) assms(4) assms(3) False by (rule taller_fits)
  have "crop_rect exact vw vh cw ch = Some ?r"
    using assms(2) assms(4) assms(3) False by (rule crop_rect_taller)
  moreover have "0 \<le> sy ?r" "sy ?r + sHeight ?r \<le> vh"
    using centred_offset [OF fits] by simp_all
  moreover have "0 \<le> sx ?r" "sx ?r + sWidth ?r \<le> vw" by simp_all
  moreover have "0 < sHeight ?r" "sWidth ?r / sHeight ?r = cw / ch"
    using assms by simp_all
  moreover have "sx ?r = (vw - sWidth ?r) / 2" "sy ?r = (vh - sHeight ?r) / 2" by simp_all
  ultimately show ?thesis by blast
qed

text \<open>
  \<open>binary64\<close> is a rounding: its result differs from the exact value by at most
  half a unit in the last place, that is by a relative error of at most \<open>2 ^ -53\<close>.
\<close>

lemma round_half_even_ties:
  "round_half_even (5 / 2) = 2 \<and> round_half_even (7 / 2) = 4 \<and> round_half_even (- 5 / 2) = - 2"
  by (simp add: round_half_even_def Let_def)


























lemma scale_le:
  fixes a b c :: real
  assumes "a \<le> b" "0 < c"
  shows "c * a \<le> c * b"
  using assms by simp












lemma binary64_tenth: "binary64 (1 / 10) = 3602879701896397 / 36028797018963968"
  by code_simp

lemma binary64_ratio: "binary64 (1920 / 1080) = binary64 (720 / 405)"
  by simp

lemma crop_rect_binary64_16_9:
  "crop_rect binary64 1920 1080 720 405 = Some \<lparr>sx = 0, sy = 0, sWidth = 1920, sHeight = 1080\<rparr>"
  by code_simp

lemma crop_rect_exact_16_9:
  "crop_rect exact 1920 1080 720 405 = Some \<lparr>sx = 0, sy = 0, sWidth = 1920, sHeight = 1080\<rparr>"
  by (simp add: crop_rect_def js_divide_def exact_def)

lemma draw_running:
  "drawn (refresh rnd LANDSCAPE_16_9 running_compositor) =
     [\<lparr>source_rect = crop_rect rnd 1920 1080 720 405, dWidth = 720, dHeight = 405\<rparr>]"
  by (simp add: refresh_def draw_def running_compositor_def requestAnimationFrame_def Let_def)

text \<open>
  Claim C9. For the 16:9 configuration (720 by 405) and a 1920 by 1080 source the
  two ratios are the same double, so the wider-than test is false, and the crop is
  exactly \<open>sx = 0\<close>, \<open>sy = 0\<close>, \<open>sWidth = 1920\<close>, \<open>sHeight = 1080\<close>, in double
  arithmetic as in exact arithmetic; this is the rectangle \<open>draw\<close> passes on.
\<close>

theorem crop_16_9_identity:
  "ASPECT_RATIO_CONFIGS LANDSCAPE_16_9 = \<lparr>width = 720, height = 405\<rparr> \<and>
   binary64 (1920 / 1080) = binary64 (720 / 405) \<and>
   \<not> binary64 (720 / 405) < binary64 (1920 / 1080) \<and>
   crop_rect binary64 1920 1080 720 405 =
     Some \<lparr>sx = 0, sy = 0, sWidth = 1920, sHeight = 1080\<rparr> \<and>
   crop_rect exact 1920 1080 720 405 =
     Some \<lparr>sx = 0, sy = 0, sWidth = 1920, sHeight = 1080\<rparr> \<and>
   drawn (refresh binary64 LANDSCAPE_16_9 running_compositor) =
     [\<lparr>source_rect = Some \<lparr>sx = 0, sy = 0, sWidth = 1920, sHeight = 1080\<rparr>,
       dWidth = 720, dHeight = 405\<rparr>]"
  using binary64_ratio
  by (simp add: draw_running crop_rect_binary64_16_9 crop_rect_exact_16_9)

lemma draw_skipped: "pass_skipped s \<Longrightarrow> draw rnd aspectRatio s = s"
  by (simp add: draw_def pass_skipped_def split: option.splits)

lemma draw_drawn:
  assumes "\<not> pass_skipped s"
  shows "pending (draw rnd aspectRatio s) = pending s @ [next_request s]"
    and "length (drawn (draw rnd aspectRatio s)) = Suc (length (drawn s))"
  using assms
  by (simp_all add: draw_def pass_skipped_def requestAnimationFrame_def Let_def
      split: option.splits)

lemma pass_skipped_pending: "pass_skipped (s\<lparr>pending := hs\<rparr>) = pass_skipped s"
  by (simp add: pass_skipped_def split: option.split)

lemma refresh_skipped:
  assumes "pass_skipped s"
  shows "pending (refresh rnd aspectRatio s) = tl (pending s)"
proof (cases "pending s")
  case Nil
  then show ?thesis by (simp add: refresh_def)
next
  case (Cons h hs)
  have "pass_skipped (s\<lparr>pending := hs\<rparr>)"
    using assms by (simp only: pass_skipped_pending)
  then have "draw rnd aspectRatio (s\<lparr>pending := hs\<rparr>) = s\<lparr>pending := hs\<rparr>"
    by (rule draw_skipped)
  with Cons show ?thesis by (simp add: refresh_def)
qed

text \<open>
  Claim C1, as amended. On a tick whose pass is skipped, because the video element
  or the canvas is missing or the canvas yields no 2D context, \<open>draw\<close> returns
  without drawing and without registering a callback: the refresh only consumes the
  callback that ran, and the loop ends there. A pass that is drawn registers the
  next callback.
\<close>

theorem draw_skip_returns:
  "(pass_skipped s \<longrightarrow>
      draw rnd aspectRatio s = s \<and>
      pending (refresh rnd aspectRatio s) = tl (pending s)) \<and>
   (\<not> pass_skipped s \<longrightarrow>
      pending (draw rnd aspectRatio s) = pending s @ [next_request s] \<and>
      length (drawn (draw rnd aspectRatio s)) = Suc (length (drawn s)))"
  using draw_skipped [of s rnd aspectRatio] refresh_skipped [of s rnd aspectRatio]
    draw_drawn [of s rnd aspectRatio]
  by blast

theorem draw_skip_returns_witness:
  "pass_skipped contextless_compositor \<and>
   draw exact LANDSCAPE_16_9 contextless_compositor = contextless_compositor \<and>
   pending (refresh exact LANDSCAPE_16_9 contextless_compositor) = [] \<and>
   pending (draw exact LANDSCAPE_16_9 running_compositor) = [1, 2] \<and>
   length (drawn (draw exact LANDSCAPE_16_9 running_compositor)) = 1"
proof -
  have a: "pass_skipped contextless_compositor" "\<not> pass_skipped running_compositor"
    by (simp_all add: pass_skipped_def contextless_compositor_def running_compositor_def)
  have b: "tl (pending contextless_compositor) = []"
    "pending running_compositor @ [next_request running_compositor] = [1, 2]"
    "drawn running_compositor = []"
    by (simp_all add: contextless_compositor_def running_compositor_def)
  show ?thesis
    using a b draw_skip_returns [of contextless_compositor exact LANDSCAPE_16_9]
      draw_skip_returns [of running_compositor exact LANDSCAPE_16_9]
    by simp
qed

text \<open>
  Claim C1 as the specification states it fails: after a refresh whose pass is
  skipped, for want of a 2D context or of the video element, no callback is pending
  and further refreshes change nothing.
\<close>

theorem draw_skip_ends_loop:
  "pending (refresh exact LANDSCAPE_16_9 contextless_compositor) = [] \<and>
   pending (refresh exact LANDSCAPE_16_9 sourceless_compositor) = [] \<and>
   refresh exact LANDSCAPE_16_9 (refresh exact LANDSCAPE_16_9 contextless_compositor) =
     refresh exact LANDSCAPE_16_9 contextless_compositor \<and>
   refresh exact LANDSCAPE_16_9 (refresh exact LANDSCAPE_16_9 sourceless_compositor) =
     refresh exact LANDSCAPE_16_9 sourceless_compositor"
  by (simp add: refresh_def draw_def contextless_compositor_def sourceless_compositor_def
      running_compositor_def)

section \<open>Proofs: Capture Session\<close>

lemma stop_inactive: "\<not> session_active s \<Longrightarrow> stop s = s"
  by (auto simp: stop_def recording_effect_def session_active_def split: option.splits)

lemma stop_active:
  assumes "session_active s"
  shows "stop s = recorder_stop (the (mediaRecorderRef s)) s"
  using assms
  by (auto simp: stop_def recording_effect_def session_active_def split: option.splits)

lemma recorder_stop_inactive: "\<not> session_active (recorder_stop (the (mediaRecorderRef s)) s)"
  by (auto simp: recorder_stop_def session_active_def split: option.splits)

lemma stop_not_active: "\<not> session_active (stop s)"
proof (cases "session_active s")
  case True
  then show ?thesis by (simp add: stop_active recorder_stop_inactive)
next
  case False
  then show ?thesis by (simp add: stop_inactive)
qed

lemma stop_stop: "stop (stop s) = stop s"
  by (rule stop_inactive) (rule stop_not_active)

lemma dispatch_recorders:
  "recorders (dispatch e s) = recorders s \<and>
   mediaRecorderRef (dispatch e s) = mediaRecorderRef s \<and>
   events (dispatch e s) = events s"
  by (cases e) (simp_all add: ondataavailable_def onstop_def)

lemma fold_dispatch_recorders:
  "recorders (fold dispatch es s) = recorders s \<and>
   mediaRecorderRef (fold dispatch es s) = mediaRecorderRef s \<and>
   events (fold dispatch es s) = events s"
  by (induction es arbitrary: s) (simp_all add: dispatch_recorders)

lemma run_events_active: "session_active (run_events s) = session_active s"
  by (simp add: session_active_def run_events_def fold_dispatch_recorders split: option.split)

lemma run_events_done: "events (run_events s) = []"
  by (simp add: run_events_def fold_dispatch_recorders)

lemma run_events_idle: "events s = [] \<Longrightarrow> run_events s = s"
  by (simp add: run_events_def)

lemma run_events_stop:
  assumes "session_active s" "events s = []"
  shows "recordingComplete (run_events (stop s)) =
           recordingComplete s @
             [\<lparr>parts = chunksRef (ondataavailable (gathered (recorders s ! the (mediaRecorderRef s))) s),
               blob_type = ''video/mp4''\<rparr>]"
  using assms
  by (simp add: stop_active recorder_stop_def run_events_def onstop_def ondataavailable_def)

text \<open>
  Claim C7. Stopping twice in a row is stopping once; a stop with no active session
  changes nothing; and from an active session with no event outstanding, two stops
  (with or without the event loop running in between) deliver exactly one finished
  recording.
\<close>

theorem stop_twice_one_emission:
  "stop (stop s) = stop s \<and>
   (\<not> session_active s \<longrightarrow> stop s = s) \<and>
   (session_active s \<and> events s = [] \<longrightarrow>
      length (recordingComplete (run_events (stop (stop s)))) = Suc (length (recordingComplete s)) \<and>
      run_events (stop (run_events (stop s))) = run_events (stop s))"
proof -
  have "run_events (stop (run_events (stop s))) = run_events (stop s)"
  proof -
    have "\<not> session_active (run_events (stop s))"
      by (simp add: run_events_active stop_not_active)
    then have "stop (run_events (stop s)) = run_events (stop s)"
      by (rule stop_inactive)
    then show ?thesis
      by (simp add: run_events_idle run_events_done)
  qed
  then show ?thesis
    by (simp add: stop_stop stop_inactive run_events_stop)
qed

theorem stop_twice_one_emission_witness:
  "session_active active_capture \<and> events active_capture = [] \<and>
   recordingComplete active_capture = [] \<and>
   recordingComplete (run_events (stop (stop active_capture))) =
     [\<lparr>parts = [[26, 69, 223, 163], [1, 2, 3]], blob_type = ''video/mp4''\<rparr>] \<and>
   run_events (stop (run_events (stop active_capture))) = run_events (stop active_capture) \<and>
   stop idle_capture = idle_capture"
proof -
  have a: "session_active active_capture" "events active_capture = []"
    "recordingComplete active_capture = []"
    by (simp_all add: session_active_def active_capture_def idle_capture_def
        recording_effect_def ondataavailable_def)
  have "recordingComplete (run_events (stop active_capture)) =
     [\<lparr>parts = [[26, 69, 223, 163], [1, 2, 3]], blob_type = ''video/mp4''\<rparr>]"
    by (simp add: run_events_stop a)
       (simp add: active_capture_def idle_capture_def recording_effect_def ondataavailable_def)
  moreover have "\<not> session_active idle_capture"
    by (simp add: session_active_def idle_capture_def)
  ultimately show ?thesis
    using a stop_twice_one_emission [of active_capture] stop_twice_one_emission [of idle_capture]
    by simp
qed

end
